theory Spec2Isabelle
  imports Complex_Main "HOL-Library.Char_ord" "HOL-Library.List_Lexorder"
begin

section \<open>The search script \<open>search_7D.py\<close>\<close>

text \<open>
  The file is a Python module with four functions (\<open>sim_fn\<close>, \<open>distance1\<close>,
  \<open>get_model\<close>, \<open>find_optimum_value\<close>) and a script under
  \<open>if __name__ == '__main__'\<close>. Floating-point numbers are idealised as reals, so a
  decimal literal stands for its exact value. All integers of the script are loop
  indices and evidence counts; they are never negative and are modelled as naturals.
\<close>

subsection \<open>Names and exceptions\<close>

text \<open>
  Python resolves a name that a function does not assign in the module's globals and then
  in the builtins, and raises \<open>NameError\<close> when neither binds it. \<open>module_names\<close>
  lists the names bound by the import statements and the \<open>def\<close>s (lines 2 to 125),
  \<open>script_names\<close> every name some statement of the script assigns (lines 153 to 233,
  including the two of the branch that loads a dictionary), and \<open>builtin_names\<close> the
  builtins the file uses. The lists are an upper bound: a name in them can still be
  unbound at a given line (\<open>i\<close> before the first loop; \<open>f\<close> and \<open>result_dict\<close>
  in every run, as \<open>dictionary_name\<close> is \<open>None\<close>), but a name in none of them is
  bound at no line.
\<close>

datatype error =
    NameError string
  | IndexError
  | TypeError
  | ValueError
  | LibraryError

definition module_names :: "string list" where
  "module_names =
    [''numpy'', ''plt'', ''h5py'', ''pickle'', ''stats'', ''differential_evolution'',
     ''multiprocessing'', ''elfi'', ''GPy'', ''GPyRegression'', ''RandMaxVar'', ''LCBSC'',
     ''ModelPrior'', ''run_CQ_fluid_simulation_vTf'', ''IP_summary_25ms'', ''save_bolfi'',
     ''sim_fn'', ''distance1'', ''get_model'', ''find_optimum_value'']"

definition script_names :: "string list" where
  "script_names =
    [''m'', ''log_d'', ''dictionary_name'', ''result_dictionary'', ''f'', ''result_dict'',
     ''kernel'', ''bounds_dict'', ''tmn'', ''bolfi'', ''iteration_accepted'', ''inst'', ''i'']"

definition builtin_names :: "string list" where
  "builtin_names = [''print'', ''range'', ''str'', ''float'', ''open'', ''None'', ''True'', ''False'']"

definition name_bound :: "string \<Rightarrow> bool" where
  "name_bound x \<longleftrightarrow> x \<in> set module_names \<or> x \<in> set script_names \<or> x \<in> set builtin_names"

subsection \<open>\<open>distance1\<close>\<close>

text \<open>
  \<open>x - y\<close> on two one-dimensional arrays: elementwise when the lengths agree, broadcast
  when one of them has a single element, \<open>ValueError\<close> otherwise.
\<close>

definition np_subtract :: "real list \<Rightarrow> real list \<Rightarrow> error + real list" where
  "np_subtract x y =
     (if length x = length y then Inr (map2 (\<lambda>a b. a - b) x y)
      else if length y = 1 then Inr (map (\<lambda>a. a - hd y) x)
      else if length x = 1 then Inr (map (\<lambda>b. hd x - b) y)
      else Inl ValueError)"

text \<open>
  Lines 63 to 79. The body reads the global \<open>np\<close>; the module imports \<open>numpy\<close> under
  its own name only.
\<close>

definition distance1 :: "real list \<Rightarrow> real list \<Rightarrow> error + real list" where
  "distance1 summary observed =
     (let y = observed; x = summary in
      if \<not> name_bound ''np'' then Inl (NameError ''np'')
      else (case np_subtract x y of
              Inl e \<Rightarrow> Inl e
            | Inr d \<Rightarrow> Inr [sum_list (map abs d)]))"

subsection \<open>Priors of \<open>get_model\<close> and the bounds of the regression\<close>

text \<open>
  Lines 94 to 100: \<open>elfi.Prior('uniform', loc, scale, name=...)\<close>, in the order of the
  source. A uniform distribution with these two arguments has the support
  \<open>[loc, loc + scale]\<close>.
\<close>

record prior =
  pname :: string
  loc :: real
  scale :: real

definition priors :: "prior list" where
  "priors =
    [\<lparr>pname = ''Tf1'', loc = 1, scale = 19\<rparr>,
     \<lparr>pname = ''Tf2'', loc = 1, scale = 19\<rparr>,
     \<lparr>pname = ''tmin'', loc = 1 / 10 ^ 3, scale = 44 / 10 ^ 3\<rparr>,
     \<lparr>pname = ''nAr'', loc = 1 / 1000, scale = 100\<rparr>,
     \<lparr>pname = ''log_walltime'', loc = 0, scale = 7\<rparr>,
     \<lparr>pname = ''alpha'', loc = 1 / 1000, scale = 10\<rparr>,
     \<lparr>pname = ''beta'', loc = 1 / 1000, scale = 10\<rparr>]"

definition support :: "prior \<Rightarrow> real \<times> real" where
  "support p = (loc p, loc p + scale p)"

text \<open>Lines 175 to 178: the dictionary \<open>bounds_dict\<close>.\<close>

definition bounds_dict :: "(string \<times> real \<times> real) list" where
  "bounds_dict =
    [(''Tf1'', (1, 20)), (''Tf2'', (1, 20)), (''tmin'', (1 / 10 ^ 3, 44 / 10 ^ 3)),
     (''nAr'', (1 / 1000, 100)), (''log_walltime'', (0, 7)), (''alpha'', (1 / 1000, 10)),
     (''beta'', (1 / 1000, 10))]"

definition bound_of :: "string \<Rightarrow> (real \<times> real) option" where
  "bound_of x = map_of bounds_dict x"

text \<open>The parameters whose prior support is not the interval of \<open>bounds_dict\<close>.\<close>

definition mismatched :: "string list" where
  "mismatched = map pname (filter (\<lambda>p. bound_of (pname p) \<noteq> Some (support p)) priors)"

subsection \<open>Parameter order of the regression\<close>

text \<open>
  Line 179 passes \<open>m.parameter_names\<close> to the regression. The ELFI model returns the
  names of its parameters sorted as strings (by code point, so capitals come first); this
  is the order of the kernel's lengthscale dimensions.
\<close>

definition parameter_names :: "string list" where
  "parameter_names = sort (map pname priors)"

fun index_of :: "'a \<Rightarrow> 'a list \<Rightarrow> nat option" where
  "index_of x [] = None"
| "index_of x (y # ys) = (if x = y then Some 0 else map_option Suc (index_of x ys))"

subsection \<open>\<open>sim_fn\<close>\<close>

text \<open>
  Lines 28 to 61. Each of the seven parameters arrives as a one-dimensional array.
  \<open>a[0]\<close> raises \<open>IndexError\<close> on an empty array, and \<open>float(a)\<close> raises
  \<open>TypeError\<close> unless the array has exactly one element.
\<close>

definition then_do :: "error + 'a \<Rightarrow> ('a \<Rightarrow> error + 'b) \<Rightarrow> error + 'b" where
  "then_do r f = (case r of Inl e \<Rightarrow> Inl e | Inr v \<Rightarrow> f v)"

definition item0 :: "real list \<Rightarrow> error + real" where
  "item0 a = (case a of [] \<Rightarrow> Inl IndexError | v # _ \<Rightarrow> Inr v)"

definition py_float :: "real list \<Rightarrow> error + real" where
  "py_float a = (case a of [v] \<Rightarrow> Inr v | _ \<Rightarrow> Inl TypeError)"

text \<open>The keyword arguments of the call of \<open>run_CQ_fluid_simulation_vTf\<close>.\<close>

record sim_kwargs =
  kw_Tf1 :: real
  kw_Tf2 :: real
  kw_t_T_f :: real
  kw_nAr_frac :: real
  kw_walltime :: real
  kw_alpha :: real
  kw_beta :: real
  kw_Nre :: real
  kw_inputfilename :: string
  kw_outputfilename :: string
  kw_initoutfile :: string
  kw_CQfluidoutfile :: string

text \<open>
  Modelled from the spec: the module \<open>run_CQ_fluid_simulation_vTf\<close> is not among the
  sources. The spec describes its result as a keyed container exposing a time grid and a
  current series; \<open>sim_fn\<close> reads \<open>['grid']['t']\<close> and \<open>['eqsys']['I_p']\<close> from
  it. The time grid is one-dimensional; the current is stored with one row per time
  point, which is why the source squeezes it. The simulation itself is a parameter of
  \<open>sim_fn\<close> below: a function of its keyword arguments that returns such a container or
  raises.
\<close>

record sim_file =
  grid_t :: "real list"
  eqsys_I_p :: "real list list"

datatype ndarray = Scalar real | Vector "real list" | Matrix "real list list"

text \<open>\<open>numpy.squeeze\<close> on a two-dimensional array drops every axis of length one.\<close>

definition np_squeeze :: "real list list \<Rightarrow> ndarray" where
  "np_squeeze a =
     (case a of
        [[v]] \<Rightarrow> Scalar v
      | [row] \<Rightarrow> Vector row
      | _ \<Rightarrow> if list_all (\<lambda>row. length row = 1) a then Vector (map hd a) else Matrix a)"

text \<open>\<open>numpy.transpose\<close> reverses the axes: nothing changes below two dimensions.\<close>

definition np_transpose :: "ndarray \<Rightarrow> ndarray" where
  "np_transpose a = (case a of Matrix rows \<Rightarrow> Matrix (transpose rows) | _ \<Rightarrow> a)"

text \<open>
  \<open>numpy.array([r0, r1])\<close>: two one-dimensional arrays of one length give a two-row
  array. Rows of different shapes raise \<open>ValueError\<close> (NumPy 1.24 and later; earlier
  releases build an array of two objects and warn).
\<close>

definition np_array2 :: "ndarray \<Rightarrow> ndarray \<Rightarrow> error + real list list" where
  "np_array2 r0 r1 =
     (case (r0, r1) of
        (Vector t, Vector c) \<Rightarrow> if length t = length c then Inr [t, c] else Inl ValueError
      | _ \<Rightarrow> Inl ValueError)"

text \<open>
  \<open>str_float\<close> stands for \<open>str(float(\<dots>))\<close>, Python's shortest decimal rendering of
  a float, which is not modelled. \<open>batch_size\<close> and \<open>random_state\<close> are the two
  keyword parameters with defaults \<open>1\<close> and \<open>None\<close>.
\<close>

definition sim_fn ::
  "(real \<Rightarrow> string) \<Rightarrow> (sim_kwargs \<Rightarrow> error + sim_file) \<Rightarrow>
   real list \<Rightarrow> real list \<Rightarrow> real list \<Rightarrow> real list \<Rightarrow> real list \<Rightarrow> real list \<Rightarrow> real list \<Rightarrow>
   nat \<Rightarrow> 'r option \<Rightarrow> error + real list list" where
  "sim_fn str_float run_CQ_fluid_simulation_vTf Tf1 Tf2 tmin nAr log_walltime alpha beta
      batch_size random_state =
     then_do (item0 Tf1) (\<lambda>a1.
     then_do (item0 Tf2) (\<lambda>a2.
     then_do (item0 tmin) (\<lambda>a3.
     then_do (item0 nAr) (\<lambda>a4.
     then_do (item0 log_walltime) (\<lambda>a5.
     then_do (item0 alpha) (\<lambda>a6.
     then_do (item0 beta) (\<lambda>a7.
     then_do (py_float Tf1) (\<lambda>f1.
     then_do (py_float Tf1) (\<lambda>f2.
     then_do (run_CQ_fluid_simulation_vTf
                \<lparr>kw_Tf1 = a1, kw_Tf2 = a2, kw_t_T_f = a3, kw_nAr_frac = a4,
                 kw_walltime = exp a5, kw_alpha = a6, kw_beta = a7, kw_Nre = 10 ^ 10,
                 kw_inputfilename = ''bolfi_7D_runs/test1i.h5'',
                 kw_outputfilename = ''bolfi_7D_runs/test1o.h5'',
                 kw_initoutfile = ''bolfi_7D_runs/'' @ str_float f1 @ ''init_out.h5'',
                 kw_CQfluidoutfile = ''bolfi_7D_runs/'' @ str_float f2 @ ''CQ_fluid_out.h5''\<rparr>)
       (\<lambda>file1.
          let timev = Vector (grid_t file1);
              currentv = np_squeeze (eqsys_I_p file1)
          in np_array2 (np_transpose timev) (np_transpose currentv)))))))))))"

subsection \<open>\<open>find_optimum_value\<close>\<close>







subsection \<open>The script: library calls and exceptions\<close>

text \<open>
  The script is a sequence of calls into ELFI and GPy, each of which may raise. A run is
  driven by a fault plan: \<open>faults m n\<close> says that the \<open>n\<close>-th library call of the
  run raises. The machine counts the calls, keeps the Python variable \<open>i\<close> and records
  every call with its outcome. The value written by a call (a seeded lengthscale, the
  pickled state) belongs to the library and is not part of the record.
\<close>

text \<open>\<open>str\<close> of a non-negative integer: its decimal digits.\<close>

definition digit :: "nat \<Rightarrow> char" where
  "digit d = ''0123456789'' ! d"

fun str :: "nat \<Rightarrow> string" where
  "str n = (if n < 10 then [digit n] else str (n div 10) @ [digit (n mod 10)])"

declare str.simps [simp del]

text \<open>
  The calls, with the expression of the source each stands for:
  \<^item> \<open>Fit n\<close>: \<open>bolfi.fit(n_evidence=n)\<close>;
  \<^item> \<open>SaveBolfi f\<close>: \<open>save_bolfi(bolfi, fname=f)\<close>;
  \<^item> \<open>GetInstance\<close>: \<open>inst = tmn.instance\<close>;
  \<^item> \<open>SetNoiseVariance\<close>, \<open>FixNoiseVariance\<close>:
    \<open>inst.Gaussian_noise.variance = 1e-10\<close> and \<open>inst.Gaussian_noise.variance.fix()\<close>;
  \<^item> \<open>ConstrainPositive\<close>: \<open>kernel.lengthscale.constrain_positive()\<close>;
  \<^item> \<open>ConstrainBounded k lo hi\<close>: \<open>kernel.lengthscale[[k]].constrain_bounded(lo, hi)\<close>;
  \<^item> \<open>Randomize\<close>, \<open>Optimize\<close>: \<open>inst.randomize()\<close> and \<open>inst.optimize()\<close>;
  \<^item> \<open>SeedLengthscale k\<close>: the assignment of the bound range divided by the evidence
    count to \<open>inst.RatQuad.lengthscale[k]\<close>;
  \<^item> \<open>CancelPending\<close>, \<open>BatchesReset\<close>: \<open>bolfi.batches.cancel_pending()\<close> and
    \<open>bolfi.batches.reset()\<close>;
  \<^item> \<open>SetNextBatchIndex\<close>: the assignment to \<open>bolfi.batches._next_batch_index\<close>;
  \<^item> \<open>Print s\<close>: a call of \<open>print\<close> that writes the line \<open>s\<close>.
\<close>

datatype call =
    Fit nat
  | SaveBolfi string
  | GetInstance
  | SetNoiseVariance
  | FixNoiseVariance
  | ConstrainPositive
  | ConstrainBounded nat real real
  | Randomize
  | SeedLengthscale nat
  | Optimize
  | CancelPending
  | SetNextBatchIndex
  | BatchesReset
  | Print string

datatype outcome = Returned | Raised

text \<open>
  A statement of a block is a library call, an assignment to \<open>i\<close> by a \<open>for\<close>
  loop, or the read of a global name.
\<close>

datatype instr = Call call | AssignI nat | ReadName string

record machine =
  faults :: "nat \<Rightarrow> bool"
  ncalls :: nat
  var_i :: nat
  trace :: "(call \<times> outcome) list"

text \<open>
  Running a block stops at the first statement that raises and reports the exception;
  \<open>None\<close> means that the block ran to its end.
\<close>

fun exec :: "instr list \<Rightarrow> machine \<Rightarrow> error option \<times> machine" where
  "exec [] m = (None, m)"
| "exec (AssignI k # is) m = exec is (m\<lparr>var_i := k\<rparr>)"
| "exec (ReadName x # is) m = (if name_bound x then exec is m else (Some (NameError x), m))"
| "exec (Call c # is) m =
     (if faults m (ncalls m)
      then (Some LibraryError, m\<lparr>ncalls := ncalls m + 1, trace := trace m @ [(c, Raised)]\<rparr>)
      else exec is (m\<lparr>ncalls := ncalls m + 1, trace := trace m @ [(c, Returned)]\<rparr>))"

subsection \<open>The script: initial evidence\<close>

text \<open>Line 192.\<close>

definition n_initial_evidence :: nat where
  "n_initial_evidence = 150"

text \<open>
  Lines 195 to 202. The handler cancels the pending batches and then evaluates
  \<open>batch_index+1\<close> before it assigns \<open>_next_batch_index\<close>.
\<close>

definition initial_try :: "instr list" where
  "initial_try = [Call (Fit n_initial_evidence)]"

definition initial_except :: "instr list" where
  "initial_except = [Call CancelPending, ReadName ''batch_index'', Call SetNextBatchIndex]"

partial_function (option) collect_initial :: "machine \<Rightarrow> (error \<times> machine + machine) option" where
  "collect_initial m =
     (case exec initial_try m of
        (None, m1) \<Rightarrow> Some (Inr m1)
      | (Some e, m1) \<Rightarrow>
          (case exec initial_except m1 of
             (None, m2) \<Rightarrow> collect_initial m2
           | (Some e', m2) \<Rightarrow> Some (Inl (e', m2))))"

declare collect_initial.simps [code]

text \<open>Lines 205 to 215: the first snapshot and the first fit of the hyperparameters.\<close>

definition initial_snapshot :: "instr list" where
  "initial_snapshot =
     [Call (SaveBolfi (''BOLFI_7D_initial_'' @ str n_initial_evidence @ ''.pkl''))]"

definition seed_loop :: "instr list" where
  "seed_loop = concat (map (\<lambda>k. [AssignI k, Call (SeedLengthscale k)]) [0..<7])"

definition initial_fit :: "instr list" where
  "initial_fit =
     [Call GetInstance, Call SetNoiseVariance, Call FixNoiseVariance, Call Randomize]
     @ seed_loop @ [Call Optimize]"

definition prologue :: "machine \<Rightarrow> (error \<times> machine + machine) option" where
  "prologue m =
     (case collect_initial m of
        None \<Rightarrow> None
      | Some (Inl a) \<Rightarrow> Some (Inl a)
      | Some (Inr m1) \<Rightarrow>
          (case exec (initial_snapshot @ initial_fit) m1 of
             (Some e, m2) \<Rightarrow> Some (Inl (e, m2))
           | (None, m2) \<Rightarrow> Some (Inr m2)))"

subsection \<open>The script: refinement\<close>

text \<open>
  Lines 238 to 251, the bounded constraints of an odd round. The comments of the source
  label the indices \<open>0\<close> to \<open>6\<close> as initial temperature, final temperature, alpha,
  beta, log_walltime, argon fraction and tmin, which is the order of
  \<open>parameter_names\<close>.
\<close>

definition odd_constraints :: "instr list" where
  "odd_constraints =
     [Call (ConstrainBounded 0 (1 / 10 ^ 3) 1),
      Call (ConstrainBounded 1 (1 / 10 ^ 3) 1),
      Call (ConstrainBounded 2 (1 / 10 ^ 3) (5 / 10)),
      Call (ConstrainBounded 3 (1 / 10 ^ 3) (5 / 10)),
      Call (ConstrainBounded 4 (1 / 10 ^ 3) (1 / 10)),
      Call (ConstrainBounded 5 (1 / 10 ^ 3) 1),
      Call (ConstrainBounded 6 (1 / 10 ^ 6) (1 / 10 ^ 3))]"

text \<open>
  Lines 223 to 253, the body of the \<open>try\<close> for the current value of \<open>i\<close>. The
  \<open>for\<close> loop of an even round (line 233) assigns the same variable \<open>i\<close>.
\<close>

definition refine_try :: "nat \<Rightarrow> instr list" where
  "refine_try i =
     [Call (Fit (150 + 50 * i)),
      Call (SaveBolfi (''BOLFI_7D_at_'' @ str (150 + 50 * i) @ ''.pkl'')),
      Call GetInstance, Call SetNoiseVariance, Call FixNoiseVariance]
     @ (if i mod 2 = 0
        then [Call ConstrainPositive, Call Randomize] @ seed_loop @ [Call Optimize]
        else odd_constraints @ [Call Randomize, Call Optimize])"

text \<open>Lines 255 to 260.\<close>

definition refine_except :: "instr list" where
  "refine_except = [Call (Print ''Exception!''), Call BatchesReset]"

text \<open>Lines 221 to 260: the \<open>while\<close> loop runs until an attempt reaches its end.\<close>

partial_function (option) refine_while :: "machine \<Rightarrow> (error \<times> machine + machine) option" where
  "refine_while m =
     (case exec (refine_try (var_i m)) m of
        (None, m1) \<Rightarrow> Some (Inr m1)
      | (Some e, m1) \<Rightarrow>
          (case exec refine_except m1 of
             (None, m2) \<Rightarrow> refine_while m2
           | (Some e', m2) \<Rightarrow> Some (Inl (e', m2))))"

declare refine_while.simps [code]

text \<open>Lines 218 to 221: one round of \<open>for i in range(20)\<close>; \<open>print('i: ', i)\<close>.\<close>

definition refine_iteration :: "nat \<Rightarrow> machine \<Rightarrow> (error \<times> machine + machine) option" where
  "refine_iteration i m =
     (case exec [AssignI i, Call (Print (''i:  '' @ str i))] m of
        (None, m1) \<Rightarrow> refine_while m1
      | (Some e, m1) \<Rightarrow> Some (Inl (e, m1)))"

fun refine_for :: "nat list \<Rightarrow> machine \<Rightarrow> (error \<times> machine + machine) option" where
  "refine_for [] m = Some (Inr m)"
| "refine_for (i # is) m =
     (case refine_iteration i m of
        None \<Rightarrow> None
      | Some (Inl a) \<Rightarrow> Some (Inl a)
      | Some (Inr m1) \<Rightarrow> refine_for is m1)"

text \<open>
  The script from line 195 on. \<open>None\<close>: the script never ends; \<open>Inl\<close>: it ends with
  an uncaught exception; \<open>Inr\<close>: it reaches its last line.
\<close>

definition main_script :: "machine \<Rightarrow> (error \<times> machine + machine) option" where
  "main_script m =
     (case prologue m of
        None \<Rightarrow> None
      | Some (Inl a) \<Rightarrow> Some (Inl a)
      | Some (Inr m2) \<Rightarrow> refine_for [0..<20] m2)"

definition start :: "(nat \<Rightarrow> bool) \<Rightarrow> machine" where
  "start plan = \<lparr>faults = plan, ncalls = 0, var_i = 0, trace = []\<rparr>"

text \<open>Two kinds of plans: no call raises; exactly the call number \<open>k\<close> raises.\<close>

definition no_faults :: "nat \<Rightarrow> bool" where
  "no_faults n \<longleftrightarrow> False"

definition fault_at :: "nat \<Rightarrow> nat \<Rightarrow> bool" where
  "fault_at k n \<longleftrightarrow> n = k"

subsection \<open>Reading a run\<close>

definition completed :: "(error \<times> machine + machine) option \<Rightarrow> bool" where
  "completed r = (case r of Some (Inr m) \<Rightarrow> True | _ \<Rightarrow> False)"

definition error_of :: "(error \<times> machine + machine) option \<Rightarrow> error option" where
  "error_of r = (case r of Some (Inl (e, m)) \<Rightarrow> Some e | _ \<Rightarrow> None)"

definition final_trace :: "(error \<times> machine + machine) option \<Rightarrow> (call \<times> outcome) list" where
  "final_trace r =
     (case r of None \<Rightarrow> [] | Some (Inl (e, m)) \<Rightarrow> trace m | Some (Inr m) \<Rightarrow> trace m)"

text \<open>The targets of the calls of \<open>bolfi.fit\<close>, in order, whether they returned or raised.\<close>

fun fit_targets :: "(call \<times> outcome) list \<Rightarrow> nat list" where
  "fit_targets [] = []"
| "fit_targets ((Fit n, r) # l) = n # fit_targets l"
| "fit_targets (ev # l) = fit_targets l"

text \<open>
  The file names of the calls of \<open>save_bolfi\<close> that returned, in order. A name that
  occurs twice is a file written twice.
\<close>

fun snapshots :: "(call \<times> outcome) list \<Rightarrow> string list" where
  "snapshots [] = []"
| "snapshots ((SaveBolfi f, Returned) # l) = f # snapshots l"
| "snapshots (ev # l) = snapshots l"

definition snapshot_names :: "string list" where
  "snapshot_names =
     (''BOLFI_7D_initial_'' @ str n_initial_evidence @ ''.pkl'')
     # map (\<lambda>i. ''BOLFI_7D_at_'' @ str (150 + 50 * i) @ ''.pkl'') [0..<20]"

text \<open>The calls of a block, the value of \<open>i\<close> after it, and the names it reads.\<close>

fun calls_of :: "instr list \<Rightarrow> call list" where
  "calls_of [] = []"
| "calls_of (Call c # is) = c # calls_of is"
| "calls_of (AssignI k # is) = calls_of is"
| "calls_of (ReadName x # is) = calls_of is"

fun last_i :: "instr list \<Rightarrow> nat \<Rightarrow> nat" where
  "last_i [] v = v"
| "last_i (AssignI k # is) v = last_i is k"
| "last_i (Call c # is) v = last_i is v"
| "last_i (ReadName x # is) v = last_i is v"

fun reads :: "instr list \<Rightarrow> string list" where
  "reads [] = []"
| "reads (ReadName x # is) = x # reads is"
| "reads (Call c # is) = reads is"
| "reads (AssignI k # is) = reads is"

definition returned :: "call list \<Rightarrow> (call \<times> outcome) list" where
  "returned cs = map (\<lambda>c. (c, Returned)) cs"

text \<open>A machine is quiet when no call from now on raises.\<close>

definition quiet :: "machine \<Rightarrow> bool" where
  "quiet m \<longleftrightarrow> (\<forall>n. ncalls m \<le> n \<longrightarrow> \<not> faults m n)"

text \<open>The record of a round whose first attempt succeeds, and of the script before the rounds.\<close>

definition round_trace :: "nat \<Rightarrow> (call \<times> outcome) list" where
  "round_trace i = returned (Print (''i:  '' @ str i) # calls_of (refine_try i))"

definition prologue_trace :: "(call \<times> outcome) list" where
  "prologue_trace = returned (calls_of (initial_try @ initial_snapshot @ initial_fit))"

text \<open>
  The constraints of the kernel's lengthscales after the calls of a trace, as an interval
  for each index that is bounded. The kernel starts with every lengthscale constrained
  positive (line 171); a call of \<open>constrain_positive\<close> that returns lifts every
  interval, and a call of \<open>constrain_bounded\<close> that returns sets the interval of its
  index. A call that raised is taken to have changed nothing.
\<close>

fun constrain ::
  "(nat \<Rightarrow> (real \<times> real) option) \<Rightarrow> call \<times> outcome \<Rightarrow> nat \<Rightarrow> (real \<times> real) option" where
  "constrain K (ConstrainPositive, Returned) = (\<lambda>k. None)"
| "constrain K (ConstrainBounded j lo hi, Returned) = K(j \<mapsto> (lo, hi))"
| "constrain K ev = K"

definition kernel_constraints :: "(call \<times> outcome) list \<Rightarrow> nat \<Rightarrow> (real \<times> real) option" where
  "kernel_constraints t = foldl constrain (\<lambda>k. None) t"

text \<open>The interval of the lengthscale of a parameter, by its position in \<open>parameter_names\<close>.\<close>

definition lengthscale_interval :: "(call \<times> outcome) list \<Rightarrow> string \<Rightarrow> (real \<times> real) option" where
  "lengthscale_interval t x =
     (case index_of x parameter_names of
        None \<Rightarrow> None
      | Some k \<Rightarrow> kernel_constraints t k)"

text \<open>
  A statement is plain when it is neither the assignment to \<open>i\<close> by a \<open>for\<close> loop
  nor the seeding of a lengthscale.
\<close>

fun plain :: "instr \<Rightarrow> bool" where
  "plain (AssignI k) = False"
| "plain (Call (SeedLengthscale k)) = False"
| "plain s = True"

text \<open>The indices of the lengthscales that the calls of a trace seed, returned or not.\<close>

fun seedings :: "(call \<times> outcome) list \<Rightarrow> nat list" where
  "seedings [] = []"
| "seedings ((SeedLengthscale k, r) # l) = k # seedings l"
| "seedings (ev # l) = seedings l"

definition width :: "real \<times> real \<Rightarrow> real" where
  "width b = snd b - fst b"


section \<open>Results\<close>


subsection \<open>\<open>distance1\<close>\<close>

lemma np_unbound: "\<not> name_bound ''np''"
  by (simp add: name_bound_def module_names_def script_names_def builtin_names_def)

text \<open>
  C1. The claim says that \<open>distance1\<close> returns the one-element array with the sum of the
  absolute elementwise differences. In the code every call raises \<open>NameError\<close>: the
  body uses \<open>np\<close>, which nothing in the module binds. The theorem evaluates the
  function at any two sequences, in particular at two identical ones.
\<close>

theorem distance1_raises_NameError: "distance1 summary observed = Inl (NameError ''np'')"
  by (simp add: distance1_def np_unbound)

subsection \<open>Priors and bounds\<close>

text \<open>
  C10, as stated: \<open>tmin\<close> is the only parameter whose prior support differs from its
  bound. This fails: \<open>tmin\<close> is not the only one.
\<close>

theorem tmin_not_only_mismatch: "mismatched \<noteq> [''tmin'']"
  by (simp add: mismatched_def priors_def bound_of_def bounds_dict_def support_def)

text \<open>
  C10, amended. The support equals the bound for \<open>Tf1\<close>, \<open>Tf2\<close> and
  \<open>log_walltime\<close>, and differs for \<open>tmin\<close>, \<open>nAr\<close>, \<open>alpha\<close> and \<open>beta\<close>. For
  each of these four the lower endpoints agree and the support reaches beyond the upper
  bound: \<open>0.045\<close> against \<open>0.044\<close> for \<open>tmin\<close>, \<open>100.001\<close> against \<open>100\<close> for
  \<open>nAr\<close>, \<open>10.001\<close> against \<open>10\<close> for \<open>alpha\<close> and \<open>beta\<close>.
\<close>

theorem prior_support_against_bounds:
  "mismatched = [''tmin'', ''nAr'', ''alpha'', ''beta'']
   \<and> map (\<lambda>p. (pname p, support p)) priors =
       [(''Tf1'', (1, 20)), (''Tf2'', (1, 20)), (''tmin'', (1 / 1000, 45 / 1000)),
        (''nAr'', (1 / 1000, 100 + 1 / 1000)), (''log_walltime'', (0, 7)),
        (''alpha'', (1 / 1000, 10 + 1 / 1000)), (''beta'', (1 / 1000, 10 + 1 / 1000))]
   \<and> bound_of ''tmin'' = Some (1 / 1000, 44 / 1000)
   \<and> bound_of ''nAr'' = Some (1 / 1000, 100)
   \<and> bound_of ''alpha'' = Some (1 / 1000, 10)
   \<and> bound_of ''beta'' = Some (1 / 1000, 10)"
  by (simp add: mismatched_def priors_def bound_of_def bounds_dict_def support_def)

subsection \<open>Runs without faults\<close>

lemma quiet_call: "quiet m \<Longrightarrow> \<not> faults m (ncalls m)"
  by (simp add: quiet_def)

lemma exec_quiet:
  "quiet m \<Longrightarrow> reads is = [] \<Longrightarrow>
   exec is m = (None, m\<lparr>ncalls := ncalls m + length (calls_of is),
                          var_i := last_i is (var_i m),
                          trace := trace m @ returned (calls_of is)\<rparr>)"
proof (induction "is" arbitrary: m)
  case Nil
  then show ?case by (simp add: returned_def)
next
  case (Cons a "is")
  show ?case
  proof (cases a)
    case (Call c)
    let ?m = "m\<lparr>ncalls := ncalls m + 1, trace := trace m @ [(c, Returned)]\<rparr>"
    have q: "quiet ?m" using Cons.prems(1) by (simp add: quiet_def)
    have r: "reads is = []" using Cons.prems(2) Call by simp
    show ?thesis
      using Cons.IH [OF q r] quiet_call [OF Cons.prems(1)] Call
      by (simp add: returned_def)
  next
    case (AssignI k)
    have q: "quiet (m\<lparr>var_i := k\<rparr>)" using Cons.prems(1) by (simp add: quiet_def)
    have r: "reads is = []" using Cons.prems(2) AssignI by simp
    show ?thesis using Cons.IH [OF q r] AssignI by simp
  next
    case (ReadName x)
    then show ?thesis using Cons.prems(2) by simp
  qed
qed

lemma seed_loop_unfold:
  "seed_loop =
    [AssignI 0, Call (SeedLengthscale 0), AssignI 1, Call (SeedLengthscale 1),
     AssignI 2, Call (SeedLengthscale 2), AssignI 3, Call (SeedLengthscale 3),
     AssignI 4, Call (SeedLengthscale 4), AssignI 5, Call (SeedLengthscale 5),
     AssignI 6, Call (SeedLengthscale 6)]"
  by (simp add: seed_loop_def upt_rec)

lemma reads_refine_try: "reads (refine_try i) = []"
  by (simp add: refine_try_def seed_loop_unfold odd_constraints_def)

lemma refine_while_quiet:
  "quiet m \<Longrightarrow>
   refine_while m =
     Some (Inr (m\<lparr>ncalls := ncalls m + length (calls_of (refine_try (var_i m))),
                   var_i := last_i (refine_try (var_i m)) (var_i m),
                   trace := trace m @ returned (calls_of (refine_try (var_i m)))\<rparr>))"
  by (subst refine_while.simps) (simp add: exec_quiet reads_refine_try)

lemma refine_iteration_quiet:
  assumes "quiet m"
  shows "\<exists>m'. refine_iteration i m = Some (Inr m') \<and> quiet m' \<and> trace m' = trace m @ round_trace i"
proof -
  let ?p = "[AssignI i, Call (Print (''i:  '' @ str i))]"
  let ?m1 = "m\<lparr>ncalls := ncalls m + length (calls_of ?p), var_i := last_i ?p (var_i m),
               trace := trace m @ returned (calls_of ?p)\<rparr>"
  have e: "exec ?p m = (None, ?m1)"
    by (rule exec_quiet [OF assms]) simp
  have q1: "quiet ?m1" using assms by (simp add: quiet_def)
  show ?thesis
    unfolding refine_iteration_def e
    using refine_while_quiet [OF q1] assms
    by (simp add: round_trace_def returned_def quiet_def)
qed

lemma refine_for_quiet:
  "quiet m \<Longrightarrow>
   \<exists>m'. refine_for is m = Some (Inr m') \<and> quiet m' \<and>
        trace m' = trace m @ concat (map round_trace is)"
proof (induction "is" arbitrary: m)
  case Nil
  then show ?case by simp
next
  case (Cons i "is")
  from refine_iteration_quiet [OF Cons.prems, of i]
  obtain m1 where m1: "refine_iteration i m = Some (Inr m1)" "quiet m1"
    "trace m1 = trace m @ round_trace i" by blast
  from Cons.IH [OF m1(2)]
  obtain m2 where m2: "refine_for is m1 = Some (Inr m2)" "quiet m2"
    "trace m2 = trace m1 @ concat (map round_trace is)" by blast
  show ?case using m1 m2 by simp
qed

lemma prologue_clear:
  assumes "\<forall>n<14. \<not> plan n"
  shows "prologue (start plan) =
           Some (Inr \<lparr>faults = plan, ncalls = 14, var_i = 6, trace = prologue_trace\<rparr>)"
  unfolding prologue_def
  apply (subst collect_initial.simps)
  using assms
  apply (simp add: start_def initial_try_def initial_snapshot_def initial_fit_def
      seed_loop_unfold prologue_trace_def returned_def)
  done

lemma main_no_faults:
  "\<exists>m. main_script (start no_faults) = Some (Inr m)
       \<and> trace m = prologue_trace @ concat (map round_trace [0..<20])"
proof -
  let ?m0 = "\<lparr>faults = no_faults, ncalls = 14, var_i = 6, trace = prologue_trace\<rparr>"
  have p: "prologue (start no_faults) = Some (Inr ?m0)"
    by (rule prologue_clear) (simp add: no_faults_def)
  have q: "quiet ?m0" by (simp add: quiet_def no_faults_def)
  from refine_for_quiet [OF q, of "[0..<20]"] p show ?thesis
    by (auto simp add: main_script_def)
qed

subsection \<open>Targets and snapshots of a trace\<close>

lemma fit_targets_append: "fit_targets (xs @ ys) = fit_targets xs @ fit_targets ys"
  by (induction xs rule: fit_targets.induct) simp_all

lemma snapshots_append: "snapshots (xs @ ys) = snapshots xs @ snapshots ys"
  by (induction xs rule: snapshots.induct) simp_all

lemma fit_targets_round: "fit_targets (round_trace i) = [150 + 50 * i]"
  by (simp add: round_trace_def returned_def refine_try_def seed_loop_unfold odd_constraints_def)

lemma snapshots_round:
  "snapshots (round_trace i) = [''BOLFI_7D_at_'' @ str (150 + 50 * i) @ ''.pkl'']"
  by (simp add: round_trace_def returned_def refine_try_def seed_loop_unfold odd_constraints_def)

lemma fit_targets_rounds:
  "fit_targets (concat (map round_trace is)) = map (\<lambda>i. 150 + 50 * i) is"
  by (induction "is") (simp_all add: fit_targets_append fit_targets_round)

lemma snapshots_rounds:
  "snapshots (concat (map round_trace is)) =
     map (\<lambda>i. ''BOLFI_7D_at_'' @ str (150 + 50 * i) @ ''.pkl'') is"
  by (induction "is") (simp_all add: snapshots_append snapshots_round)

lemma fit_targets_prologue: "fit_targets prologue_trace = [150]"
  by (simp add: prologue_trace_def returned_def initial_try_def initial_snapshot_def
      initial_fit_def seed_loop_unfold n_initial_evidence_def)

lemma snapshots_prologue:
  "snapshots prologue_trace = [''BOLFI_7D_initial_'' @ str n_initial_evidence @ ''.pkl'']"
  by (simp add: prologue_trace_def returned_def initial_try_def initial_snapshot_def
      initial_fit_def seed_loop_unfold)

lemma snapshot_names_explicit:
  "snapshot_names =
    [''BOLFI_7D_initial_150.pkl'',
     ''BOLFI_7D_at_150.pkl'', ''BOLFI_7D_at_200.pkl'', ''BOLFI_7D_at_250.pkl'',
     ''BOLFI_7D_at_300.pkl'', ''BOLFI_7D_at_350.pkl'', ''BOLFI_7D_at_400.pkl'',
     ''BOLFI_7D_at_450.pkl'', ''BOLFI_7D_at_500.pkl'', ''BOLFI_7D_at_550.pkl'',
     ''BOLFI_7D_at_600.pkl'', ''BOLFI_7D_at_650.pkl'', ''BOLFI_7D_at_700.pkl'',
     ''BOLFI_7D_at_750.pkl'', ''BOLFI_7D_at_800.pkl'', ''BOLFI_7D_at_850.pkl'',
     ''BOLFI_7D_at_900.pkl'', ''BOLFI_7D_at_950.pkl'', ''BOLFI_7D_at_1000.pkl'',
     ''BOLFI_7D_at_1050.pkl'', ''BOLFI_7D_at_1100.pkl'']"
  by (simp add: snapshot_names_def n_initial_evidence_def upt_rec str.simps digit_def)

lemma fault_free_trace:
  "final_trace (main_script (start no_faults)) =
     prologue_trace @ concat (map round_trace [0..<20])"
  using main_no_faults by (auto simp add: final_trace_def)

lemma fault_free_targets:
  "fit_targets (final_trace (main_script (start no_faults))) =
    [150, 150, 200, 250, 300, 350, 400, 450, 500, 550, 600, 650, 700, 750, 800, 850, 900,
     950, 1000, 1050, 1100]"
proof -
  have "fit_targets (final_trace (main_script (start no_faults))) =
          150 # map (\<lambda>i. 150 + 50 * i) [0..<20]"
    by (simp add: fault_free_trace fit_targets_append fit_targets_prologue fit_targets_rounds)
  also have "map (\<lambda>i. 150 + 50 * i) [0..<20] =
      [150, 200, 250, 300, 350, 400, 450, 500, 550, 600, 650, 700, 750, 800, 850, 900,
       950, 1000, 1050, 1100::nat]"
    by (simp add: upt_rec)
  finally show ?thesis .
qed

lemma fault_free_snapshots:
  "snapshots (final_trace (main_script (start no_faults))) = snapshot_names"
  by (simp add: fault_free_trace snapshots_append snapshots_prologue snapshots_rounds
      snapshot_names_def)

subsection \<open>The schedule of fit targets\<close>

text \<open>
  C2, as stated: the targets follow \<open>150, 200, \<dots>, 1150\<close> (\<open>150 + 50*i\<close> for
  \<open>i = 0..20\<close>) and strictly increase. In the run in which no call raises, the targets
  are not this list, \<open>1150\<close> is never a target, and the sequence is not strictly
  increasing: the first round of the refinement repeats the target \<open>150\<close> of the
  initial phase.
\<close>

theorem schedule_to_1150_fails:
  "fit_targets (final_trace (main_script (start no_faults))) \<noteq>
     [150, 200, 250, 300, 350, 400, 450, 500, 550, 600, 650, 700, 750, 800, 850, 900, 950,
      1000, 1050, 1100, 1150]
   \<and> 1150 \<notin> set (fit_targets (final_trace (main_script (start no_faults))))
   \<and> \<not> sorted_wrt (<) (fit_targets (final_trace (main_script (start no_faults))))"
  by (simp add: fault_free_targets)

text \<open>
  C2, amended. In the run in which no call raises, the script reaches its end; the
  targets are \<open>150\<close> for the initial phase and \<open>150 + 50*i\<close> for the rounds
  \<open>i = 0..19\<close>, that is \<open>150, 150, 200, \<dots>, 1100\<close>; the sequence never decreases, and
  it strictly increases over the rounds of the refinement.
\<close>

theorem checkpoint_schedule:
  "completed (main_script (start no_faults))
   \<and> fit_targets (final_trace (main_script (start no_faults))) =
       [150, 150, 200, 250, 300, 350, 400, 450, 500, 550, 600, 650, 700, 750, 800, 850, 900,
        950, 1000, 1050, 1100]
   \<and> fit_targets (final_trace (main_script (start no_faults))) =
       n_initial_evidence # map (\<lambda>i. 150 + 50 * i) [0..<20]
   \<and> sorted (fit_targets (final_trace (main_script (start no_faults))))
   \<and> sorted_wrt (<) (tl (fit_targets (final_trace (main_script (start no_faults)))))"
proof -
  have c: "completed (main_script (start no_faults))"
    using main_no_faults by (auto simp add: completed_def)
  have e: "n_initial_evidence # map (\<lambda>i. 150 + 50 * i) [0..<20] =
      [150, 150, 200, 250, 300, 350, 400, 450, 500, 550, 600, 650, 700, 750, 800, 850, 900,
       950, 1000, 1050, 1100]"
    by (simp add: n_initial_evidence_def upt_rec)
  show ?thesis
    unfolding e fault_free_targets using c by simp
qed

subsection \<open>A failure while the initial evidence is collected\<close>

text \<open>
  C3. The claim says that after a failed fit the handler cancels the pending batches,
  advances the batch index by one and retries. In the code the handler cancels the
  pending batches and then reads \<open>batch_index\<close>, which nothing binds: when the first
  call of \<open>bolfi.fit\<close> raises, the script ends with \<open>NameError\<close>, the batch index is
  never set and the fit is never retried. The theorem runs the script with a plan in
  which the first library call raises.
\<close>

theorem initial_failure_ends_in_NameError:
  "error_of (main_script (start (fault_at 0))) = Some (NameError ''batch_index'')
   \<and> final_trace (main_script (start (fault_at 0))) =
       [(Fit 150, Raised), (CancelPending, Returned)]"
proof -
  have nb: "\<not> name_bound ''batch_index''"
    by (simp add: name_bound_def module_names_def script_names_def builtin_names_def)
  have "collect_initial (start (fault_at 0)) =
          Some (Inl (NameError ''batch_index'',
                     \<lparr>faults = fault_at 0, ncalls = 2, var_i = 0,
                      trace = [(Fit 150, Raised), (CancelPending, Returned)]\<rparr>))"
    by (subst collect_initial.simps)
       (simp add: start_def fault_at_def initial_try_def initial_except_def
          n_initial_evidence_def nb)
  then show ?thesis
    by (simp add: main_script_def prologue_def error_of_def final_trace_def)
qed

lemma upt_0_20: "[0..<20] = 0 # [1..<20]"
  by (simp add: upt_rec)

lemma upt_1_20: "[1..<20] = 1 # [2..<20]"
  by (simp add: upt_rec)

subsection \<open>A failure while an even round re-tunes the kernel\<close>

text \<open>
  Call number 29 of a run is \<open>inst.optimize()\<close> in the first attempt of round
  \<open>i = 0\<close>: 14 calls before the rounds, \<open>print\<close>, and 14 calls of the \<open>try\<close> body
  before it. When it raises, the inner \<open>for\<close> loop has left \<open>i = 6\<close>.
\<close>

lemma round0_optimize_raises:
  "refine_iteration 0 \<lparr>faults = fault_at 29, ncalls = 14, var_i = 6, trace = L\<rparr> =
     Some (Inr \<lparr>faults = fault_at 29, ncalls = 47, var_i = 6,
                trace = L @ [(Print ''i:  0'', Returned)]
                        @ returned (take 14 (calls_of (refine_try 0)))
                        @ [(Optimize, Raised)]
                        @ returned (calls_of refine_except)
                        @ returned (calls_of (refine_try 6))\<rparr>)"
  unfolding refine_iteration_def
  apply (simp add: fault_at_def str.simps digit_def)
  apply (subst refine_while.simps)
  apply (simp add: refine_try_def seed_loop_unfold refine_except_def fault_at_def)
  apply (subst refine_while.simps)
  apply (simp add: refine_try_def seed_loop_unfold refine_except_def fault_at_def returned_def)
  done

lemma main_fault_29:
  "\<exists>m. main_script (start (fault_at 29)) = Some (Inr m)
       \<and> trace m = prologue_trace @ [(Print ''i:  0'', Returned)]
                   @ returned (take 14 (calls_of (refine_try 0)))
                   @ [(Optimize, Raised)]
                   @ returned (calls_of refine_except)
                   @ returned (calls_of (refine_try 6))
                   @ concat (map round_trace [1..<20])"
proof -
  let ?m0 = "\<lparr>faults = fault_at 29, ncalls = 14, var_i = 6, trace = prologue_trace\<rparr>"
  let ?t = "prologue_trace @ [(Print ''i:  0'', Returned)]
                        @ returned (take 14 (calls_of (refine_try 0)))
                        @ [(Optimize, Raised)]
                        @ returned (calls_of refine_except)
                        @ returned (calls_of (refine_try 6))"
  let ?m1 = "\<lparr>faults = fault_at 29, ncalls = 47, var_i = 6, trace = ?t\<rparr>"
  have p: "prologue (start (fault_at 29)) = Some (Inr ?m0)"
    by (rule prologue_clear) (simp add: fault_at_def)
  have r: "refine_iteration 0 ?m0 = Some (Inr ?m1)"
    by (rule round0_optimize_raises)
  have q: "quiet ?m1" by (simp add: quiet_def fault_at_def)
  from refine_for_quiet [OF q, of "[1..<20]"]
  obtain m where m: "refine_for [1..<20] ?m1 = Some (Inr m)"
    "trace m = ?t @ concat (map round_trace [1..<20])" by auto
  have "main_script (start (fault_at 29)) = Some (Inr m)"
    unfolding main_script_def p upt_0_20 using r m(1) by simp
  then show ?thesis using m(2) by simp
qed

lemma fit_targets_returned_try: "fit_targets (returned (calls_of (refine_try i))) = [150 + 50 * i]"
  by (simp add: returned_def refine_try_def seed_loop_unfold odd_constraints_def)

text \<open>
  C4. The claim says that after an exception of the fitting or re-tuning step the same
  target \<open>150 + 50*i\<close> is retried. The theorem runs the script with a plan in which
  \<open>inst.optimize()\<close> raises in the first attempt of round \<open>i = 0\<close>. The handler
  prints the message and resets the batches, and no batch index is set; but the retry
  calls \<open>bolfi.fit\<close> with the target \<open>450\<close> and writes the snapshot of \<open>450\<close>,
  because the loop over the seven lengthscales has overwritten \<open>i\<close> with \<open>6\<close>. The
  next round goes back to the target \<open>200\<close>.
\<close>

theorem retry_after_retune_failure_changes_target:
  "completed (main_script (start (fault_at 29)))
   \<and> take 5 (drop 29 (final_trace (main_script (start (fault_at 29))))) =
       [(Optimize, Raised), (Print ''Exception!'', Returned), (BatchesReset, Returned),
        (Fit 450, Returned), (SaveBolfi ''BOLFI_7D_at_450.pkl'', Returned)]
   \<and> fit_targets (final_trace (main_script (start (fault_at 29)))) =
       [150, 150, 450, 200, 250, 300, 350, 400, 450, 500, 550, 600, 650, 700, 750, 800, 850,
        900, 950, 1000, 1050, 1100]"
proof -
  from main_fault_29 obtain m where
    m: "main_script (start (fault_at 29)) = Some (Inr m)"
    and t: "trace m = prologue_trace @ [(Print ''i:  0'', Returned)]
                   @ returned (take 14 (calls_of (refine_try 0)))
                   @ [(Optimize, Raised)]
                   @ returned (calls_of refine_except)
                   @ returned (calls_of (refine_try 6))
                   @ concat (map round_trace [1..<20])" by blast
  have c: "completed (main_script (start (fault_at 29)))"
    using m by (simp add: completed_def)
  have f: "final_trace (main_script (start (fault_at 29))) = trace m"
    using m by (simp add: final_trace_def)
  have s: "take 5 (drop 29 (trace m)) =
       [(Optimize, Raised), (Print ''Exception!'', Returned), (BatchesReset, Returned),
        (Fit 450, Returned), (SaveBolfi ''BOLFI_7D_at_450.pkl'', Returned)]"
    unfolding t
    by (simp add: prologue_trace_def returned_def initial_try_def initial_snapshot_def
        initial_fit_def seed_loop_unfold refine_try_def refine_except_def str.simps digit_def)
  have "fit_targets (trace m) = [150, 150, 450] @ map (\<lambda>i. 150 + 50 * i) [1..<20]"
    unfolding t
    by (simp add: fit_targets_append fit_targets_prologue fit_targets_rounds
        fit_targets_returned_try)
       (simp add: returned_def refine_try_def seed_loop_unfold refine_except_def)
  also have "map (\<lambda>i. 150 + 50 * i) [1..<20] =
      [200, 250, 300, 350, 400, 450, 500, 550, 600, 650, 700, 750, 800, 850, 900,
       950, 1000, 1050, 1100::nat]"
    by (simp add: upt_rec)
  finally show ?thesis using c s f by simp
qed

subsection \<open>A failure while an odd round re-tunes the kernel\<close>

text \<open>
  Call number 44 of a run is \<open>inst.optimize()\<close> in the first attempt of round
  \<open>i = 1\<close>: the 14 calls before the rounds, the 16 calls of round \<open>0\<close>,
  \<open>print\<close>, and 13 calls of the \<open>try\<close> body before it.
\<close>

lemma round0_before_fault_44:
  "refine_iteration 0 \<lparr>faults = fault_at 44, ncalls = 14, var_i = 6, trace = L\<rparr> =
     Some (Inr \<lparr>faults = fault_at 44, ncalls = 30, var_i = 6, trace = L @ round_trace 0\<rparr>)"
  unfolding refine_iteration_def
  apply (simp add: fault_at_def)
  apply (subst refine_while.simps)
  apply (simp add: refine_try_def seed_loop_unfold fault_at_def round_trace_def returned_def)
  done

lemma round1_optimize_raises:
  "refine_iteration 1 \<lparr>faults = fault_at 44, ncalls = 30, var_i = 6, trace = L\<rparr> =
     Some (Inr \<lparr>faults = fault_at 44, ncalls = 61, var_i = 1,
                trace = L @ [(Print ''i:  1'', Returned)]
                        @ returned (take 13 (calls_of (refine_try 1)))
                        @ [(Optimize, Raised)]
                        @ returned (calls_of refine_except)
                        @ returned (calls_of (refine_try 1))\<rparr>)"
  unfolding refine_iteration_def
  apply (simp add: fault_at_def str.simps digit_def)
  apply (subst refine_while.simps)
  apply (simp add: refine_try_def odd_constraints_def refine_except_def fault_at_def)
  apply (subst refine_while.simps)
  apply (simp add: refine_try_def odd_constraints_def refine_except_def fault_at_def returned_def)
  done

lemma main_fault_44:
  "\<exists>m. main_script (start (fault_at 44)) = Some (Inr m)
       \<and> trace m = prologue_trace @ round_trace 0 @ [(Print ''i:  1'', Returned)]
                   @ returned (take 13 (calls_of (refine_try 1)))
                   @ [(Optimize, Raised)]
                   @ returned (calls_of refine_except)
                   @ returned (calls_of (refine_try 1))
                   @ concat (map round_trace [2..<20])"
proof -
  let ?m0 = "\<lparr>faults = fault_at 44, ncalls = 14, var_i = 6, trace = prologue_trace\<rparr>"
  let ?m1 = "\<lparr>faults = fault_at 44, ncalls = 30, var_i = 6,
              trace = prologue_trace @ round_trace 0\<rparr>"
  let ?t = "(prologue_trace @ round_trace 0) @ [(Print ''i:  1'', Returned)]
                        @ returned (take 13 (calls_of (refine_try 1)))
                        @ [(Optimize, Raised)]
                        @ returned (calls_of refine_except)
                        @ returned (calls_of (refine_try 1))"
  let ?m2 = "\<lparr>faults = fault_at 44, ncalls = 61, var_i = 1, trace = ?t\<rparr>"
  have p: "prologue (start (fault_at 44)) = Some (Inr ?m0)"
    by (rule prologue_clear) (simp add: fault_at_def)
  have r0: "refine_iteration 0 ?m0 = Some (Inr ?m1)"
    by (rule round0_before_fault_44)
  have r1: "refine_iteration 1 ?m1 = Some (Inr ?m2)"
    by (rule round1_optimize_raises)
  have q: "quiet ?m2" by (simp add: quiet_def fault_at_def)
  from refine_for_quiet [OF q, of "[2..<20]"]
  obtain m where m: "refine_for [2..<20] ?m2 = Some (Inr m)"
    "trace m = ?t @ concat (map round_trace [2..<20])" by auto
  have "main_script (start (fault_at 44)) = Some (Inr m)"
    unfolding main_script_def p upt_0_20 upt_1_20 using r0 r1 m(1) by simp
  then show ?thesis using m(2) by simp
qed

lemma snapshots_returned_try:
  "snapshots (returned (calls_of (refine_try i))) =
     [''BOLFI_7D_at_'' @ str (150 + 50 * i) @ ''.pkl'']"
  by (simp add: returned_def refine_try_def seed_loop_unfold odd_constraints_def)

lemma fault_44_snapshots:
  "take 4 (snapshots (final_trace (main_script (start (fault_at 44))))) =
     [''BOLFI_7D_initial_150.pkl'', ''BOLFI_7D_at_150.pkl'', ''BOLFI_7D_at_200.pkl'',
      ''BOLFI_7D_at_200.pkl'']"
proof -
  from main_fault_44 obtain m where
    m: "main_script (start (fault_at 44)) = Some (Inr m)"
    and t: "trace m = prologue_trace @ round_trace 0 @ [(Print ''i:  1'', Returned)]
                   @ returned (take 13 (calls_of (refine_try 1)))
                   @ [(Optimize, Raised)]
                   @ returned (calls_of refine_except)
                   @ returned (calls_of (refine_try 1))
                   @ concat (map round_trace [2..<20])" by blast
  have f: "final_trace (main_script (start (fault_at 44))) = trace m"
    using m by (simp add: final_trace_def)
  have "snapshots (trace m) =
          [''BOLFI_7D_initial_'' @ str n_initial_evidence @ ''.pkl'',
           ''BOLFI_7D_at_'' @ str (150 + 50 * 0) @ ''.pkl'']
          @ snapshots (returned (take 13 (calls_of (refine_try 1))))
          @ snapshots (returned (calls_of refine_except))
          @ [''BOLFI_7D_at_'' @ str (150 + 50 * 1) @ ''.pkl'']
          @ map (\<lambda>i. ''BOLFI_7D_at_'' @ str (150 + 50 * i) @ ''.pkl'') [2..<20]"
    unfolding t snapshots_append snapshots_prologue snapshots_round snapshots_returned_try
      snapshots_rounds
    by simp
  also have "snapshots (returned (take 13 (calls_of (refine_try 1)))) = [''BOLFI_7D_at_200.pkl'']"
    by (simp add: returned_def refine_try_def odd_constraints_def str.simps digit_def)
  also have "snapshots (returned (calls_of refine_except)) = []"
    by (simp add: returned_def refine_except_def)
  finally show ?thesis
    unfolding f by (simp add: n_initial_evidence_def str.simps digit_def)
qed

text \<open>
  C5, as stated: no snapshot file is ever overwritten during a run. The snapshot is
  written inside the \<open>try\<close>, before the kernel is re-tuned, so an attempt that fails
  after it is followed by a retry that writes the same file again. In the run in which
  \<open>inst.optimize()\<close> raises once in round \<open>i = 1\<close>, \<open>save_bolfi\<close> returns twice
  for \<open>BOLFI_7D_at_200.pkl\<close>.
\<close>

theorem snapshot_rewritten_by_retry:
  "\<not> distinct (snapshots (final_trace (main_script (start (fault_at 44)))))"
proof
  assume d: "distinct (snapshots (final_trace (main_script (start (fault_at 44)))))"
  have "distinct (take 4 (snapshots (final_trace (main_script (start (fault_at 44))))))"
    using d by (rule distinct_take)
  then show False unfolding fault_44_snapshots by simp
qed

subsection \<open>Every run that ends has written the 21 snapshots\<close>

lemma exec_grows:
  "exec is m = (r, m') \<Longrightarrow> \<exists>l. trace m' = trace m @ l"
proof (induction "is" m rule: exec.induct)
  case (1 m)
  then show ?case by simp
next
  case (2 k "is" m)
  then show ?case by simp
next
  case (3 x "is" m)
  then show ?case by (simp split: if_splits)
next
  case (4 c "is" m)
  then show ?case by (fastforce split: if_splits)
qed

lemma exec_done:
  "exec is m = (None, m') \<Longrightarrow> trace m' = trace m @ returned (calls_of is)"
proof (induction "is" m rule: exec.induct)
  case (1 m)
  then show ?case by (simp add: returned_def)
next
  case (2 k "is" m)
  then show ?case by simp
next
  case (3 x "is" m)
  then show ?case by (simp split: if_splits)
next
  case (4 c "is" m)
  then show ?case by (simp add: returned_def split: if_splits)
qed

lemma in_snapshots: "(SaveBolfi f, Returned) \<in> set l \<Longrightarrow> f \<in> set (snapshots l)"
  by (induction l rule: snapshots.induct) auto

lemma exec_try_failed:
  assumes "exec (refine_try i) m = (Some e, m')" and "var_i m = i"
  shows "var_i m' = i
         \<or> (SaveBolfi (''BOLFI_7D_at_'' @ str (150 + 50 * i) @ ''.pkl''), Returned) \<in> set (trace m')"
proof -
  obtain rest where r: "refine_try i =
      Call (Fit (150 + 50 * i))
      # Call (SaveBolfi (''BOLFI_7D_at_'' @ str (150 + 50 * i) @ ''.pkl'')) # rest"
    by (simp add: refine_try_def)
  let ?s = "SaveBolfi (''BOLFI_7D_at_'' @ str (150 + 50 * i) @ ''.pkl'')"
  let ?m1 = "m\<lparr>ncalls := ncalls m + 1, trace := trace m @ [(Fit (150 + 50 * i), Returned)]\<rparr>"
  let ?m2 = "?m1\<lparr>ncalls := ncalls ?m1 + 1, trace := trace ?m1 @ [(?s, Returned)]\<rparr>"
  show ?thesis
  proof (cases "faults m (ncalls m)")
    case True
    then show ?thesis using assms r by auto
  next
    case f1: False
    show ?thesis
    proof (cases "faults m (ncalls m + 1)")
      case True
      then show ?thesis using assms r f1 by auto
    next
      case False
      then have "exec rest ?m2 = (Some e, m')" using assms r f1 by simp
      from exec_grows [OF this] show ?thesis by auto
    qed
  qed
qed

lemma saved_by_try:
  "(SaveBolfi (''BOLFI_7D_at_'' @ str (150 + 50 * i) @ ''.pkl''), Returned)
     \<in> set (returned (calls_of (refine_try i)))"
  by (simp add: refine_try_def returned_def)

lemma exec_except:
  "exec refine_except m = (None, m') \<Longrightarrow> var_i m' = var_i m"
  by (auto simp add: refine_except_def split: if_splits)

lemma refine_while_grows:
  assumes "refine_while m = Some r"
  shows "case r of Inl a \<Rightarrow> True | Inr m' \<Rightarrow> \<exists>l. trace m' = trace m @ l"
proof (rule refine_while.raw_induct [rotated, OF assms])
  fix rw :: "machine \<Rightarrow> (error \<times> machine + machine) option" and m r
  assume IH: "\<And>x y. rw x = Some y \<Longrightarrow>
                (case y of Inl a \<Rightarrow> True | Inr m' \<Rightarrow> \<exists>l. trace m' = trace x @ l)"
    and body: "(case exec (refine_try (var_i m)) m of
                  (None, m1) \<Rightarrow> Some (Inr m1)
                | (Some e, m1) \<Rightarrow>
                    (case exec refine_except m1 of
                       (None, m2) \<Rightarrow> rw m2
                     | (Some e', m2) \<Rightarrow> Some (Inl (e', m2)))) = Some r"
  obtain r1 m1 where e1: "exec (refine_try (var_i m)) m = (r1, m1)" by force
  from exec_grows [OF e1] obtain l1 where g1: "trace m1 = trace m @ l1" by blast
  show "case r of Inl a \<Rightarrow> True | Inr m' \<Rightarrow> \<exists>l. trace m' = trace m @ l"
  proof (cases r1)
    case None
    then show ?thesis using body e1 g1 by auto
  next
    case (Some e)
    obtain r2 m2 where e2: "exec refine_except m1 = (r2, m2)" by force
    from exec_grows [OF e2] obtain l2 where g2: "trace m2 = trace m1 @ l2" by blast
    show ?thesis
    proof (cases r2)
      case None
      then have "rw m2 = Some r" using body e1 e2 Some by simp
      from IH [OF this] g1 g2 show ?thesis
        by (auto split: sum.splits)
    next
      case (Some e')
      then show ?thesis using body e1 e2 \<open>r1 = Some e\<close> by auto
    qed
  qed
qed

lemma refine_while_saves:
  assumes "refine_while m = Some r"
  shows "var_i m = i
           \<or> (SaveBolfi (''BOLFI_7D_at_'' @ str (150 + 50 * i) @ ''.pkl''), Returned) \<in> set (trace m) \<longrightarrow>
         (case r of
            Inl a \<Rightarrow> True
          | Inr m' \<Rightarrow>
              (SaveBolfi (''BOLFI_7D_at_'' @ str (150 + 50 * i) @ ''.pkl''), Returned)
                \<in> set (trace m'))"
proof (rule refine_while.raw_induct [rotated, OF assms])
  let ?s = "(SaveBolfi (''BOLFI_7D_at_'' @ str (150 + 50 * i) @ ''.pkl''), Returned)"
  fix rw :: "machine \<Rightarrow> (error \<times> machine + machine) option" and m r
  assume IH: "\<And>x y. rw x = Some y \<Longrightarrow>
                var_i x = i \<or> ?s \<in> set (trace x) \<longrightarrow>
                (case y of Inl a \<Rightarrow> True | Inr m' \<Rightarrow> ?s \<in> set (trace m'))"
    and body: "(case exec (refine_try (var_i m)) m of
                  (None, m1) \<Rightarrow> Some (Inr m1)
                | (Some e, m1) \<Rightarrow>
                    (case exec refine_except m1 of
                       (None, m2) \<Rightarrow> rw m2
                     | (Some e', m2) \<Rightarrow> Some (Inl (e', m2)))) = Some r"
  obtain r1 m1 where e1: "exec (refine_try (var_i m)) m = (r1, m1)" by force
  from exec_grows [OF e1] obtain l1 where g1: "trace m1 = trace m @ l1" by blast
  show "var_i m = i \<or> ?s \<in> set (trace m) \<longrightarrow>
        (case r of Inl a \<Rightarrow> True | Inr m' \<Rightarrow> ?s \<in> set (trace m'))"
  proof
    assume pre: "var_i m = i \<or> ?s \<in> set (trace m)"
    show "case r of Inl a \<Rightarrow> True | Inr m' \<Rightarrow> ?s \<in> set (trace m')"
    proof (cases r1)
      case None
      then have r: "r = Inr m1" using body e1 by auto
      have t: "trace m1 = trace m @ returned (calls_of (refine_try (var_i m)))"
        using exec_done e1 None by simp
      show ?thesis
      proof (cases "var_i m = i")
        case True
        then show ?thesis using r t saved_by_try [of i] by simp
      next
        case False
        then show ?thesis using r g1 pre by simp
      qed
    next
      case (Some e)
      obtain r2 m2 where e2: "exec refine_except m1 = (r2, m2)" by force
      from exec_grows [OF e2] obtain l2 where g2: "trace m2 = trace m1 @ l2" by blast
      show ?thesis
      proof (cases r2)
        case None
        then have rw: "rw m2 = Some r" using body e1 e2 Some by simp
        have v2: "var_i m2 = var_i m1" using exec_except e2 None by simp
        have "var_i m2 = i \<or> ?s \<in> set (trace m2)"
        proof (cases "var_i m = i")
          case True
          from exec_try_failed [of i m e m1] e1 Some True
          have "var_i m1 = i \<or> ?s \<in> set (trace m1)" by simp
          then show ?thesis using v2 g2 by auto
        next
          case False
          then have "?s \<in> set (trace m)" using pre by simp
          then show ?thesis using g1 g2 by simp
        qed
        with IH [OF rw] show ?thesis by blast
      next
        case (Some e')
        then show ?thesis using body e1 e2 \<open>r1 = Some e\<close> by auto
      qed
    qed
  qed
qed

lemma refine_iteration_saves:
  assumes "refine_iteration i m = Some (Inr m')"
  shows "(SaveBolfi (''BOLFI_7D_at_'' @ str (150 + 50 * i) @ ''.pkl''), Returned) \<in> set (trace m')
         \<and> (\<exists>l. trace m' = trace m @ l)"
proof -
  obtain r1 m1 where e1: "exec [AssignI i, Call (Print (''i:  '' @ str i))] m = (r1, m1)"
    by force
  from exec_grows [OF e1] obtain l1 where g1: "trace m1 = trace m @ l1" by blast
  have n: "r1 = None" using assms e1 by (cases r1) (simp_all add: refine_iteration_def)
  have v: "var_i m1 = i" using e1 n by (auto split: if_splits)
  have w: "refine_while m1 = Some (Inr m')" using assms e1 n by (simp add: refine_iteration_def)
  from refine_while_saves [OF w, of i] v refine_while_grows [OF w] g1
  show ?thesis by auto
qed

lemma refine_for_saves:
  "refine_for is m = Some (Inr m') \<Longrightarrow>
   (\<exists>l. trace m' = trace m @ l)
   \<and> (\<forall>i\<in>set is. (SaveBolfi (''BOLFI_7D_at_'' @ str (150 + 50 * i) @ ''.pkl''), Returned)
                     \<in> set (trace m'))"
proof (induction "is" arbitrary: m)
  case Nil
  then show ?case by simp
next
  case (Cons i "is")
  from Cons.prems obtain m1 where m1: "refine_iteration i m = Some (Inr m1)"
    and rest: "refine_for is m1 = Some (Inr m')"
    by (auto split: option.splits sum.splits)
  from refine_iteration_saves [OF m1] Cons.IH [OF rest] show ?case by auto
qed

lemma prologue_saves:
  assumes "prologue m = Some (Inr m')"
  shows "(SaveBolfi (''BOLFI_7D_initial_'' @ str n_initial_evidence @ ''.pkl''), Returned)
           \<in> set (trace m')"
proof -
  from assms obtain m1 where e: "exec (initial_snapshot @ initial_fit) m1 = (None, m')"
    by (auto simp add: prologue_def split: option.splits sum.splits prod.splits)
  from exec_done [OF e] show ?thesis
    by (simp add: initial_snapshot_def returned_def)
qed

lemma completed_run_saves:
  assumes "main_script (start plan) = Some (Inr m)"
  shows "set snapshot_names \<subseteq> set (snapshots (trace m))"
proof -
  from assms obtain m0 where p: "prologue (start plan) = Some (Inr m0)"
    and f: "refine_for [0..<20] m0 = Some (Inr m)"
    by (auto simp add: main_script_def split: option.splits sum.splits)
  from refine_for_saves [OF f] prologue_saves [OF p]
  have "\<forall>x\<in>set snapshot_names. (SaveBolfi x, Returned) \<in> set (trace m)"
    unfolding snapshot_names_def by auto
  then show ?thesis using in_snapshots by blast
qed

lemma distinct_snapshot_names: "distinct snapshot_names"
  unfolding snapshot_names_explicit by simp

text \<open>
  C5, amended. A run that reaches the end of the script, whatever calls have raised on
  the way, has written the snapshot \<open>BOLFI_7D_initial_150.pkl\<close> and, for every round
  \<open>i = 0..19\<close>, the snapshot \<open>BOLFI_7D_at_\<close>\<open>150 + 50*i\<close>\<open>.pkl\<close>. In the run in which no
  call raises these 21 files are all the snapshots, in this order, each written once.
\<close>

theorem snapshots_of_a_run:
  "(completed (main_script (start plan)) \<longrightarrow>
      set snapshot_names \<subseteq> set (snapshots (final_trace (main_script (start plan)))))
   \<and> snapshots (final_trace (main_script (start no_faults))) = snapshot_names
   \<and> distinct snapshot_names
   \<and> snapshot_names =
      [''BOLFI_7D_initial_150.pkl'',
       ''BOLFI_7D_at_150.pkl'', ''BOLFI_7D_at_200.pkl'', ''BOLFI_7D_at_250.pkl'',
       ''BOLFI_7D_at_300.pkl'', ''BOLFI_7D_at_350.pkl'', ''BOLFI_7D_at_400.pkl'',
       ''BOLFI_7D_at_450.pkl'', ''BOLFI_7D_at_500.pkl'', ''BOLFI_7D_at_550.pkl'',
       ''BOLFI_7D_at_600.pkl'', ''BOLFI_7D_at_650.pkl'', ''BOLFI_7D_at_700.pkl'',
       ''BOLFI_7D_at_750.pkl'', ''BOLFI_7D_at_800.pkl'', ''BOLFI_7D_at_850.pkl'',
       ''BOLFI_7D_at_900.pkl'', ''BOLFI_7D_at_950.pkl'', ''BOLFI_7D_at_1000.pkl'',
       ''BOLFI_7D_at_1050.pkl'', ''BOLFI_7D_at_1100.pkl'']"
proof -
  have g: "completed (main_script (start plan)) \<longrightarrow>
      set snapshot_names \<subseteq> set (snapshots (final_trace (main_script (start plan))))"
  proof
    assume "completed (main_script (start plan))"
    then obtain m where m: "main_script (start plan) = Some (Inr m)"
      by (auto simp add: completed_def split: option.splits sum.splits)
    from completed_run_saves [OF m] m show
      "set snapshot_names \<subseteq> set (snapshots (final_trace (main_script (start plan))))"
      by (simp add: final_trace_def)
  qed
  show ?thesis
    using g fault_free_snapshots distinct_snapshot_names snapshot_names_explicit by simp
qed

theorem snapshots_of_a_run_witness:
  "completed (main_script (start (fault_at 44)))
   \<and> set snapshot_names \<subseteq> set (snapshots (final_trace (main_script (start (fault_at 44)))))"
proof -
  have c: "completed (main_script (start (fault_at 44)))"
    using main_fault_44 by (auto simp add: completed_def)
  show ?thesis using c snapshots_of_a_run [of "fault_at 44"] by simp
qed

subsection \<open>The constraints of an odd round\<close>

lemma parameter_names_sorted:
  "parameter_names = [''Tf1'', ''Tf2'', ''alpha'', ''beta'', ''log_walltime'', ''nAr'', ''tmin'']"
  by (simp add: parameter_names_def priors_def)

lemma odd_try_calls:
  "i mod 2 = 1 \<Longrightarrow>
   calls_of (refine_try i) =
     [Fit (150 + 50 * i), SaveBolfi (''BOLFI_7D_at_'' @ str (150 + 50 * i) @ ''.pkl''),
      GetInstance, SetNoiseVariance, FixNoiseVariance,
      ConstrainBounded 0 (1 / 1000) 1, ConstrainBounded 1 (1 / 1000) 1,
      ConstrainBounded 2 (1 / 1000) (1 / 2), ConstrainBounded 3 (1 / 1000) (1 / 2),
      ConstrainBounded 4 (1 / 1000) (1 / 10), ConstrainBounded 5 (1 / 1000) 1,
      ConstrainBounded 6 (1 / 1000000) (1 / 1000),
      Randomize, Optimize]"
  by (simp add: refine_try_def odd_constraints_def)

lemma seedings_append: "seedings (xs @ ys) = seedings xs @ seedings ys"
  by (induction xs rule: seedings.induct) simp_all

lemma exec_plain:
  "exec is m = (r, m') \<Longrightarrow> list_all plain is \<Longrightarrow>
   var_i m' = var_i m \<and> (\<exists>l. trace m' = trace m @ l \<and> seedings l = [])"
proof (induction "is" m rule: exec.induct)
  case (1 m)
  then show ?case by simp
next
  case (2 k "is" m)
  then show ?case by simp
next
  case (3 x "is" m)
  then show ?case by (simp split: if_splits)
next
  case (4 c "is" m)
  show ?case
  proof (cases "faults m (ncalls m)")
    case True
    then have "trace m' = trace m @ [(c, Raised)]" "var_i m' = var_i m"
      using 4(2) by auto
    moreover have "seedings [(c, Raised)] = []" using 4(3) by (cases c) simp_all
    ultimately show ?thesis by blast
  next
    case False
    let ?m = "m\<lparr>ncalls := ncalls m + 1, trace := trace m @ [(c, Returned)]\<rparr>"
    have e: "exec is ?m = (r, m')" using 4(2) False by simp
    have p: "list_all plain is" using 4(3) by simp
    from 4(1) [OF False e p] obtain l where
      l: "var_i m' = var_i m" "trace m' = trace m @ [(c, Returned)] @ l" "seedings l = []"
      by auto
    have "seedings ([(c, Returned)] @ l) = []"
      using 4(3) l(3) by (cases c) simp_all
    then show ?thesis using l(1,2) by blast
  qed
qed

lemma plain_odd_try: "i mod 2 = 1 \<Longrightarrow> list_all plain (refine_try i)"
  by (simp add: refine_try_def odd_constraints_def)

lemma plain_except: "list_all plain refine_except"
  by (simp add: refine_except_def)

lemma refine_while_odd:
  assumes "refine_while m = Some r"
  shows "var_i m = i \<and> i mod 2 = 1 \<longrightarrow>
         (case r of
            Inl a \<Rightarrow> True
          | Inr m' \<Rightarrow> \<exists>l. trace m' = trace m @ l @ returned (calls_of (refine_try i))
                           \<and> seedings l = [])"
proof (rule refine_while.raw_induct [rotated, OF assms])
  fix rw :: "machine \<Rightarrow> (error \<times> machine + machine) option" and m r
  assume IH: "\<And>x y. rw x = Some y \<Longrightarrow>
                var_i x = i \<and> i mod 2 = 1 \<longrightarrow>
                (case y of
                   Inl a \<Rightarrow> True
                 | Inr m' \<Rightarrow> \<exists>l. trace m' = trace x @ l @ returned (calls_of (refine_try i))
                                  \<and> seedings l = [])"
    and body: "(case exec (refine_try (var_i m)) m of
                  (None, m1) \<Rightarrow> Some (Inr m1)
                | (Some e, m1) \<Rightarrow>
                    (case exec refine_except m1 of
                       (None, m2) \<Rightarrow> rw m2
                     | (Some e', m2) \<Rightarrow> Some (Inl (e', m2)))) = Some r"
  show "var_i m = i \<and> i mod 2 = 1 \<longrightarrow>
        (case r of
           Inl a \<Rightarrow> True
         | Inr m' \<Rightarrow> \<exists>l. trace m' = trace m @ l @ returned (calls_of (refine_try i))
                          \<and> seedings l = [])"
  proof
    assume pre: "var_i m = i \<and> i mod 2 = 1"
    obtain r1 m1 where e1: "exec (refine_try i) m = (r1, m1)" by force
    from exec_plain [OF e1 plain_odd_try] pre obtain l1 where
      g1: "var_i m1 = i" "trace m1 = trace m @ l1" "seedings l1 = []" by auto
    show "case r of
            Inl a \<Rightarrow> True
          | Inr m' \<Rightarrow> \<exists>l. trace m' = trace m @ l @ returned (calls_of (refine_try i))
                           \<and> seedings l = []"
    proof (cases r1)
      case None
      then have r: "r = Inr m1" using body e1 pre by auto
      have "trace m1 = trace m @ [] @ returned (calls_of (refine_try i))"
        using exec_done e1 None by simp
      then show ?thesis using r by (auto intro: exI [of _ "[]"])
    next
      case (Some e)
      obtain r2 m2 where e2: "exec refine_except m1 = (r2, m2)" by force
      from exec_plain [OF e2 plain_except] g1 obtain l2 where
        g2: "var_i m2 = i" "trace m2 = trace m1 @ l2" "seedings l2 = []" by auto
      show ?thesis
      proof (cases r2)
        case None
        then have rw: "rw m2 = Some r" using body e1 e2 Some pre by simp
        show ?thesis
        proof (cases r)
          case (Inl a)
          then show ?thesis by simp
        next
          case (Inr m')
          from IH [OF rw] g2(1) pre Inr obtain l where
            l: "trace m' = trace m2 @ l @ returned (calls_of (refine_try i))" "seedings l = []"
            by auto
          have "trace m' = trace m @ (l1 @ l2 @ l) @ returned (calls_of (refine_try i))"
            using l(1) g1(2) g2(2) by simp
          moreover have "seedings (l1 @ l2 @ l) = []"
            using g1(3) g2(3) l(2) by (simp add: seedings_append)
          ultimately show ?thesis using Inr by auto
        qed
      next
        case (Some e')
        then show ?thesis using body e1 e2 \<open>r1 = Some e\<close> pre by auto
      qed
    qed
  qed
qed

lemma refine_iteration_odd:
  assumes "i mod 2 = 1" and "refine_iteration i m = Some (Inr m')"
  shows "\<exists>l. trace m' = trace m @ l @ returned (calls_of (refine_try i)) \<and> seedings l = []"
proof -
  obtain r1 m1 where e1: "exec [AssignI i, Call (Print (''i:  '' @ str i))] m = (r1, m1)"
    by force
  have n: "r1 = None" using assms(2) e1 by (cases r1) (simp_all add: refine_iteration_def)
  have v: "var_i m1 = i" using e1 n by (auto split: if_splits)
  have t: "trace m1 = trace m @ [(Print (''i:  '' @ str i), Returned)]"
    using e1 n by (auto split: if_splits)
  have w: "refine_while m1 = Some (Inr m')"
    using assms(2) e1 n by (simp add: refine_iteration_def)
  from refine_while_odd [OF w, of i] v assms(1) obtain l where
    l: "trace m' = trace m1 @ l @ returned (calls_of (refine_try i))" "seedings l = []"
    by auto
  have "trace m' = trace m @ ((Print (''i:  '' @ str i), Returned) # l)
                   @ returned (calls_of (refine_try i))"
    using l(1) t by simp
  moreover have "seedings ((Print (''i:  '' @ str i), Returned) # l) = []"
    using l(2) by simp
  ultimately show ?thesis by blast
qed

lemma constraints_after_odd_try:
  assumes "i mod 2 = 1"
  shows "map (\<lambda>x. (x, lengthscale_interval (t @ returned (calls_of (refine_try i))) x))
           parameter_names =
         [(''Tf1'', Some (1 / 1000, 1)), (''Tf2'', Some (1 / 1000, 1)),
          (''alpha'', Some (1 / 1000, 1 / 2)), (''beta'', Some (1 / 1000, 1 / 2)),
          (''log_walltime'', Some (1 / 1000, 1 / 10)), (''nAr'', Some (1 / 1000, 1)),
          (''tmin'', Some (1 / 1000000, 1 / 1000))]"
  by (simp add: odd_try_calls [OF assms] parameter_names_sorted lengthscale_interval_def
      kernel_constraints_def returned_def)

text \<open>
  C6. Every round with odd \<open>i\<close> that comes to its end, whatever calls have raised on
  the way, ends with an attempt that fits, writes the snapshot, fixes the noise,
  constrains each of the seven lengthscales to its own interval and then randomizes and
  optimizes; no call of the round seeds a lengthscale. At the end of the round the
  interval of \<open>tmin\<close> is \<open>[1e-6, 1e-3]\<close>, of width \<open>0.000999\<close>, and the intervals of
  \<open>Tf1\<close> and \<open>Tf2\<close> are \<open>[1e-3, 1]\<close>, of width \<open>0.999\<close>: a thousand times wider.
  When no call raises, the round does come to its end, and its calls are \<open>print\<close> and
  this one attempt.
\<close>

theorem odd_round_constraints:
  "i mod 2 = 1 \<Longrightarrow>
   (completed (refine_iteration i m) \<longrightarrow>
      (\<exists>l. final_trace (refine_iteration i m) =
             trace m @ l @
             returned
              [Fit (150 + 50 * i), SaveBolfi (''BOLFI_7D_at_'' @ str (150 + 50 * i) @ ''.pkl''),
               GetInstance, SetNoiseVariance, FixNoiseVariance,
               ConstrainBounded 0 (1 / 1000) 1, ConstrainBounded 1 (1 / 1000) 1,
               ConstrainBounded 2 (1 / 1000) (1 / 2), ConstrainBounded 3 (1 / 1000) (1 / 2),
               ConstrainBounded 4 (1 / 1000) (1 / 10), ConstrainBounded 5 (1 / 1000) 1,
               ConstrainBounded 6 (1 / 1000000) (1 / 1000),
               Randomize, Optimize]
           \<and> seedings l = [])
      \<and> seedings (drop (length (trace m)) (final_trace (refine_iteration i m))) = []
      \<and> map (\<lambda>x. (x, lengthscale_interval (final_trace (refine_iteration i m)) x))
            parameter_names =
          [(''Tf1'', Some (1 / 1000, 1)), (''Tf2'', Some (1 / 1000, 1)),
           (''alpha'', Some (1 / 1000, 1 / 2)), (''beta'', Some (1 / 1000, 1 / 2)),
           (''log_walltime'', Some (1 / 1000, 1 / 10)), (''nAr'', Some (1 / 1000, 1)),
           (''tmin'', Some (1 / 1000000, 1 / 1000))]
      \<and> map_option width (lengthscale_interval (final_trace (refine_iteration i m)) ''tmin'')
          = Some (999 / 1000000)
      \<and> map_option width (lengthscale_interval (final_trace (refine_iteration i m)) ''Tf1'')
          = Some (999 / 1000)
      \<and> map_option width (lengthscale_interval (final_trace (refine_iteration i m)) ''Tf2'')
          = Some (999 / 1000))
   \<and> (quiet m \<longrightarrow>
        completed (refine_iteration i m)
        \<and> final_trace (refine_iteration i m) =
            trace m @
            returned
             [Print (''i:  '' @ str i),
              Fit (150 + 50 * i), SaveBolfi (''BOLFI_7D_at_'' @ str (150 + 50 * i) @ ''.pkl''),
              GetInstance, SetNoiseVariance, FixNoiseVariance,
              ConstrainBounded 0 (1 / 1000) 1, ConstrainBounded 1 (1 / 1000) 1,
              ConstrainBounded 2 (1 / 1000) (1 / 2), ConstrainBounded 3 (1 / 1000) (1 / 2),
              ConstrainBounded 4 (1 / 1000) (1 / 10), ConstrainBounded 5 (1 / 1000) 1,
              ConstrainBounded 6 (1 / 1000000) (1 / 1000),
              Randomize, Optimize])"
proof -
  assume odd: "i mod 2 = 1"
  let ?r = "refine_iteration i m"
  note cs = odd_try_calls [OF odd]
  have a: "completed ?r \<longrightarrow>
      (\<exists>l. final_trace ?r = trace m @ l @ returned (calls_of (refine_try i)) \<and> seedings l = [])
      \<and> seedings (drop (length (trace m)) (final_trace ?r)) = []
      \<and> map (\<lambda>x. (x, lengthscale_interval (final_trace ?r) x)) parameter_names =
          [(''Tf1'', Some (1 / 1000, 1)), (''Tf2'', Some (1 / 1000, 1)),
           (''alpha'', Some (1 / 1000, 1 / 2)), (''beta'', Some (1 / 1000, 1 / 2)),
           (''log_walltime'', Some (1 / 1000, 1 / 10)), (''nAr'', Some (1 / 1000, 1)),
           (''tmin'', Some (1 / 1000000, 1 / 1000))]"
  proof
    assume "completed ?r"
    then obtain m' where m': "?r = Some (Inr m')"
      by (auto simp add: completed_def split: option.splits sum.splits)
    from refine_iteration_odd [OF odd m'] obtain l where
      l: "trace m' = trace m @ l @ returned (calls_of (refine_try i))" "seedings l = []"
      by blast
    have f: "final_trace ?r = trace m @ l @ returned (calls_of (refine_try i))"
      using m' l(1) by (simp add: final_trace_def)
    have s: "seedings (drop (length (trace m)) (final_trace ?r)) = []"
      unfolding f using l(2) by (simp add: seedings_append cs returned_def)
    have k: "map (\<lambda>x. (x, lengthscale_interval (final_trace ?r) x)) parameter_names =
          [(''Tf1'', Some (1 / 1000, 1)), (''Tf2'', Some (1 / 1000, 1)),
           (''alpha'', Some (1 / 1000, 1 / 2)), (''beta'', Some (1 / 1000, 1 / 2)),
           (''log_walltime'', Some (1 / 1000, 1 / 10)), (''nAr'', Some (1 / 1000, 1)),
           (''tmin'', Some (1 / 1000000, 1 / 1000))]"
      using constraints_after_odd_try [OF odd, of "trace m @ l"] f by simp
    show "(\<exists>l. final_trace ?r = trace m @ l @ returned (calls_of (refine_try i))
               \<and> seedings l = [])
      \<and> seedings (drop (length (trace m)) (final_trace ?r)) = []
      \<and> map (\<lambda>x. (x, lengthscale_interval (final_trace ?r) x)) parameter_names =
          [(''Tf1'', Some (1 / 1000, 1)), (''Tf2'', Some (1 / 1000, 1)),
           (''alpha'', Some (1 / 1000, 1 / 2)), (''beta'', Some (1 / 1000, 1 / 2)),
           (''log_walltime'', Some (1 / 1000, 1 / 10)), (''nAr'', Some (1 / 1000, 1)),
           (''tmin'', Some (1 / 1000000, 1 / 1000))]"
      using f l(2) s k by blast
  qed
  have b: "quiet m \<longrightarrow> completed ?r
        \<and> final_trace ?r = trace m @ returned (Print (''i:  '' @ str i) # calls_of (refine_try i))"
  proof
    assume "quiet m"
    from refine_iteration_quiet [OF this, of i] obtain m' where
      "?r = Some (Inr m')" "trace m' = trace m @ round_trace i" by blast
    then show "completed ?r
        \<and> final_trace ?r = trace m @ returned (Print (''i:  '' @ str i) # calls_of (refine_try i))"
      by (simp add: completed_def final_trace_def round_trace_def)
  qed
  show ?thesis
    using a b unfolding cs by (auto simp add: parameter_names_sorted width_def)
qed

theorem odd_round_constraints_witness:
  "(1::nat) mod 2 = 1
   \<and> quiet (start no_faults)
   \<and> completed (refine_iteration 1 (start no_faults))
   \<and> final_trace (refine_iteration 1 (start no_faults)) =
       returned
        [Print ''i:  1'', Fit 200, SaveBolfi ''BOLFI_7D_at_200.pkl'',
         GetInstance, SetNoiseVariance, FixNoiseVariance,
         ConstrainBounded 0 (1 / 1000) 1, ConstrainBounded 1 (1 / 1000) 1,
         ConstrainBounded 2 (1 / 1000) (1 / 2), ConstrainBounded 3 (1 / 1000) (1 / 2),
         ConstrainBounded 4 (1 / 1000) (1 / 10), ConstrainBounded 5 (1 / 1000) 1,
         ConstrainBounded 6 (1 / 1000000) (1 / 1000),
         Randomize, Optimize]
   \<and> lengthscale_interval (final_trace (refine_iteration 1 (start no_faults))) ''tmin''
       = Some (1 / 1000000, 1 / 1000)
   \<and> lengthscale_interval (final_trace (refine_iteration 1 (start no_faults))) ''Tf1''
       = Some (1 / 1000, 1)
   \<and> lengthscale_interval (final_trace (refine_iteration 1 (start no_faults))) ''Tf2''
       = Some (1 / 1000, 1)"
proof -
  let ?r = "refine_iteration 1 (start no_faults)"
  have o: "(1::nat) mod 2 = 1" by simp
  have q: "quiet (start no_faults)" by (simp add: quiet_def start_def no_faults_def)
  note t = odd_round_constraints [OF o, of "start no_faults"]
  from t q have c: "completed ?r" by blast
  from t q have f: "final_trace ?r =
      trace (start no_faults) @
      returned
       [Print (''i:  '' @ str 1),
        Fit (150 + 50 * 1), SaveBolfi (''BOLFI_7D_at_'' @ str (150 + 50 * 1) @ ''.pkl''),
        GetInstance, SetNoiseVariance, FixNoiseVariance,
        ConstrainBounded 0 (1 / 1000) 1, ConstrainBounded 1 (1 / 1000) 1,
        ConstrainBounded 2 (1 / 1000) (1 / 2), ConstrainBounded 3 (1 / 1000) (1 / 2),
        ConstrainBounded 4 (1 / 1000) (1 / 10), ConstrainBounded 5 (1 / 1000) 1,
        ConstrainBounded 6 (1 / 1000000) (1 / 1000),
        Randomize, Optimize]" by blast
  from t c have k: "map (\<lambda>x. (x, lengthscale_interval (final_trace ?r) x)) parameter_names =
          [(''Tf1'', Some (1 / 1000, 1)), (''Tf2'', Some (1 / 1000, 1)),
           (''alpha'', Some (1 / 1000, 1 / 2)), (''beta'', Some (1 / 1000, 1 / 2)),
           (''log_walltime'', Some (1 / 1000, 1 / 10)), (''nAr'', Some (1 / 1000, 1)),
           (''tmin'', Some (1 / 1000000, 1 / 1000))]" by blast
  have f': "final_trace ?r =
       returned
        [Print ''i:  1'', Fit 200, SaveBolfi ''BOLFI_7D_at_200.pkl'',
         GetInstance, SetNoiseVariance, FixNoiseVariance,
         ConstrainBounded 0 (1 / 1000) 1, ConstrainBounded 1 (1 / 1000) 1,
         ConstrainBounded 2 (1 / 1000) (1 / 2), ConstrainBounded 3 (1 / 1000) (1 / 2),
         ConstrainBounded 4 (1 / 1000) (1 / 10), ConstrainBounded 5 (1 / 1000) 1,
         ConstrainBounded 6 (1 / 1000000) (1 / 1000),
         Randomize, Optimize]"
    unfolding f by (simp add: start_def str.simps digit_def)
  from k have i: "lengthscale_interval (final_trace ?r) ''tmin'' = Some (1 / 1000000, 1 / 1000)"
    "lengthscale_interval (final_trace ?r) ''Tf1'' = Some (1 / 1000, 1)"
    "lengthscale_interval (final_trace ?r) ''Tf2'' = Some (1 / 1000, 1)"
    by (simp_all add: parameter_names_sorted)
  show ?thesis using o q c f' i by blast
qed

subsection \<open>\<open>sim_fn\<close>\<close>




text \<open>
  C9. The result of \<open>sim_fn\<close> does not depend on \<open>batch_size\<close> and \<open>random_state\<close>:
  two calls with the same seven parameter arrays (and the same simulation) give the same
  result, or raise the same exception, whatever these two arguments are.
\<close>

theorem sim_fn_ignores_batch_size_and_random_state:
  "sim_fn str_float run Tf1 Tf2 tmin nAr log_walltime alpha beta batch_size random_state =
   sim_fn str_float run Tf1 Tf2 tmin nAr log_walltime alpha beta batch_size' random_state'"
  by (simp add: sim_fn_def)

subsection \<open>\<open>find_optimum_value\<close>\<close>



end
